theory Spec2Isabelle
  imports Main "HOL-Library.Multiset"
begin

section \<open>The SQLite store of the Model Control Protocol\<close>

text \<open>
  The program keeps its whole state in one SQLite file with two tables, \<open>messages\<close> and
  \<open>model_interactions\<close>. A table is the list of its rows in rowid order; a table that has
  not been created yet is \<open>None\<close>. A timestamp is the text that \<open>CURRENT_TIMESTAMP\<close>
  yields (\<open>YYYY-MM-DD HH:MM:SS\<close>, one second of resolution); SQLite compares two such
  texts as the moments they denote, so a timestamp is modelled as the number of seconds.
\<close>

record message =
  msg_id :: nat
  model_id :: string
  message_type :: string
  message_content :: string
  msg_timestamp :: nat

record interaction =
  interaction_id :: nat
  model1_id :: string
  model2_id :: string
  message_id :: nat
  mi_timestamp :: nat

record database =
  messages :: "message list option"
  model_interactions :: "interaction list option"

text \<open>The file before anything was created in it (also what \<open>sqlite3.connect\<close> makes of a
  path that does not exist).\<close>

definition empty_db :: database where
  "empty_db = \<lparr>messages = None, model_interactions = None\<rparr>"

subsection \<open>Failures of the storage layer\<close>

text \<open>
  The methods catch nothing, so what \<open>sqlite3\<close> raises reaches the caller. Every call into
  \<open>sqlite3\<close> is a step that the outside world can make fail; which steps fail during one
  method call is the parameter \<open>io\<close> of that method (\<open>True\<close>: the step raises).
\<close>

datatype error = OperationalError

datatype io_step = Connect | Execute nat | Commit

type_synonym io = "io_step \<Rightarrow> bool"

definition ok_io :: io where
  "ok_io = (\<lambda>_. False)"

text \<open>
  A connection sees the file as \<open>pending\<close>: the committed content plus what it has written
  itself. The \<open>sqlite3\<close> module opens a transaction before the first INSERT and leaves it
  open until \<open>commit\<close>; a statement that creates a table outside a transaction is
  committed at once. A connection that goes away leaves the committed content behind.
\<close>

record connection =
  committed :: database
  pending :: database
  in_txn :: bool

definition connect :: "io \<Rightarrow> database \<Rightarrow> error + connection" where
  "connect io db =
     (if io Connect then Inl OperationalError
      else Inr \<lparr>committed = db, pending = db, in_txn = False\<rparr>)"

definition commit :: "io \<Rightarrow> connection \<Rightarrow> error + connection" where
  "commit io c =
     (if io Commit then Inl OperationalError
      else Inr (c\<lparr>committed := pending c, in_txn := False\<rparr>))"

definition close :: "connection \<Rightarrow> database" where
  "close c = committed c"

subsection \<open>The SQL statements\<close>

text \<open>\<open>INTEGER PRIMARY KEY AUTOINCREMENT\<close>: one more than the largest rowid so far (no row is
  ever deleted from a table, so the largest rowid ever used is the largest one present).\<close>

definition next_rowid :: "nat list \<Rightarrow> nat" where
  "next_rowid ids = Suc (foldr max ids 0)"

definition ddl :: "(database \<Rightarrow> database) \<Rightarrow> connection \<Rightarrow> connection" where
  "ddl f c =
     (if in_txn c then c\<lparr>pending := f (pending c)\<rparr>
      else c\<lparr>pending := f (pending c), committed := f (pending c)\<rparr>)"

definition create_messages :: "io \<Rightarrow> nat \<Rightarrow> connection \<Rightarrow> error + connection" where
  "create_messages io k c =
     (if io (Execute k) then Inl OperationalError
      else Inr (ddl (\<lambda>db. case messages db of
                             None \<Rightarrow> db\<lparr>messages := Some []\<rparr>
                           | Some _ \<Rightarrow> db) c))"

definition create_model_interactions :: "io \<Rightarrow> nat \<Rightarrow> connection \<Rightarrow> error + connection" where
  "create_model_interactions io k c =
     (if io (Execute k) then Inl OperationalError
      else Inr (ddl (\<lambda>db. case model_interactions db of
                             None \<Rightarrow> db\<lparr>model_interactions := Some []\<rparr>
                           | Some _ \<Rightarrow> db) c))"

definition insert_message ::
  "io \<Rightarrow> nat \<Rightarrow> nat \<Rightarrow> string \<Rightarrow> string \<Rightarrow> string \<Rightarrow> connection \<Rightarrow> error + (nat \<times> connection)" where
  "insert_message io k now sender mtype content c =
     (if io (Execute k) then Inl OperationalError
      else case messages (pending c) of
             None \<Rightarrow> Inl OperationalError
           | Some ms \<Rightarrow>
               let rid = next_rowid (map msg_id ms);
                   row = \<lparr>msg_id = rid, model_id = sender, message_type = mtype,
                          message_content = content, msg_timestamp = now\<rparr>
               in Inr (rid, c\<lparr>pending := (pending c)\<lparr>messages := Some (ms @ [row])\<rparr>,
                              in_txn := True\<rparr>))"

definition insert_interaction ::
  "io \<Rightarrow> nat \<Rightarrow> nat \<Rightarrow> string \<Rightarrow> string \<Rightarrow> nat \<Rightarrow> connection \<Rightarrow> error + connection" where
  "insert_interaction io k now sender receiver mid c =
     (if io (Execute k) then Inl OperationalError
      else case model_interactions (pending c) of
             None \<Rightarrow> Inl OperationalError
           | Some rows \<Rightarrow>
               let row = \<lparr>interaction_id = next_rowid (map interaction_id rows),
                          model1_id = sender, model2_id = receiver, message_id = mid,
                          mi_timestamp = now\<rparr>
               in Inr (c\<lparr>pending := (pending c)\<lparr>model_interactions := Some (rows @ [row])\<rparr>,
                         in_txn := True\<rparr>))"

text \<open>
  The three SELECTs. Each yields its rows in the order in which SQLite produces them. The
  two queries without a message id scan \<open>model_interactions\<close> and look the message of each
  row up by rowid; the query for one message id finds the message first and scans
  \<open>model_interactions\<close> for it. \<open>ORDER BY m.timestamp\<close> names no second key: SQLite keeps
  rows of equal timestamp in the order of the scan, which is what a stable sort does.
\<close>

definition joined :: "(interaction \<Rightarrow> bool) \<Rightarrow> database \<Rightarrow> error + (message \<times> interaction) list" where
  "joined P db =
     (case messages db of
        None \<Rightarrow> Inl OperationalError
      | Some ms \<Rightarrow>
          (case model_interactions db of
             None \<Rightarrow> Inl OperationalError
           | Some rows \<Rightarrow>
               Inr (concat (map (\<lambda>mi. map (\<lambda>m. (m, mi))
                                         (filter (\<lambda>m. msg_id m = message_id mi) ms))
                                (filter P rows)))))"

definition select_by_id :: "io \<Rightarrow> nat \<Rightarrow> string \<Rightarrow> connection \<Rightarrow> error + (string \<times> string) list" where
  "select_by_id io mid who c =
     (if io (Execute 0) then Inl OperationalError
      else case messages (pending c) of
             None \<Rightarrow> Inl OperationalError
           | Some ms \<Rightarrow>
               (case model_interactions (pending c) of
                  None \<Rightarrow> Inl OperationalError
                | Some rows \<Rightarrow>
                    Inr (concat (map (\<lambda>m. map (\<lambda>mi. (message_content m, model_id m))
                                              (filter (\<lambda>mi. msg_id m = message_id mi \<and>
                                                            message_id mi = mid \<and>
                                                            model2_id mi = who) rows))
                                     (filter (\<lambda>m. msg_id m = mid) ms)))))"

definition newest_first :: "(message \<times> interaction) list \<Rightarrow> (message \<times> interaction) list" where
  "newest_first rows = sort_key (\<lambda>(m, mi). - int (msg_timestamp m)) rows"

definition oldest_first :: "(message \<times> interaction) list \<Rightarrow> (message \<times> interaction) list" where
  "oldest_first rows = sort_key (\<lambda>(m, mi). msg_timestamp m) rows"

definition select_latest :: "io \<Rightarrow> string \<Rightarrow> connection \<Rightarrow> error + (string \<times> string) list" where
  "select_latest io who c =
     (if io (Execute 0) then Inl OperationalError
      else case joined (\<lambda>mi. model2_id mi = who) (pending c) of
             Inl e \<Rightarrow> Inl e
           | Inr rows \<Rightarrow>
               Inr (map (\<lambda>(m, mi). (message_content m, model_id m))
                        (take 1 (newest_first rows))))"

definition select_all ::
  "io \<Rightarrow> connection \<Rightarrow> error + (nat \<times> string \<times> string \<times> string \<times> nat) list" where
  "select_all io c =
     (if io (Execute 0) then Inl OperationalError
      else case joined (\<lambda>mi. True) (pending c) of
             Inl e \<Rightarrow> Inl e
           | Inr rows \<Rightarrow>
               Inr (map (\<lambda>(m, mi). (msg_id m, model_id m, model2_id mi,
                                     message_content m, msg_timestamp m))
                        (oldest_first rows)))"

definition fetchone :: "'a list \<Rightarrow> 'a option" where
  "fetchone rows = (case rows of [] \<Rightarrow> None | r # _ \<Rightarrow> Some r)"

section \<open>The methods of ModelControlProtocol\<close>

text \<open>
  A method that writes returns what it returns (or the error it raises) together with the
  file as it is afterwards.
\<close>

record mcp =
  db_path :: string
  models :: "string list"
  current_model_index :: nat

definition setup_database :: "io \<Rightarrow> database \<Rightarrow> (error + unit) \<times> database" where
  "setup_database io db =
     (case connect io db of
        Inl e \<Rightarrow> (Inl e, db)
      | Inr c0 \<Rightarrow>
          (case create_messages io 0 c0 of
             Inl e \<Rightarrow> (Inl e, close c0)
           | Inr c1 \<Rightarrow>
               (case create_model_interactions io 1 c1 of
                  Inl e \<Rightarrow> (Inl e, close c1)
                | Inr c2 \<Rightarrow>
                    (case commit io c2 of
                       Inl e \<Rightarrow> (Inl e, close c2)
                     | Inr c3 \<Rightarrow> (Inr (), close c3)))))"

definition send_message ::
  "io \<Rightarrow> nat \<times> nat \<Rightarrow> string \<Rightarrow> string \<Rightarrow> string \<Rightarrow> string \<Rightarrow> database \<Rightarrow> (error + nat) \<times> database" where
  "send_message io now sender_model receiver_model content mtype db =
     (case connect io db of
        Inl e \<Rightarrow> (Inl e, db)
      | Inr c0 \<Rightarrow>
          (case insert_message io 0 (fst now) sender_model mtype content c0 of
             Inl e \<Rightarrow> (Inl e, close c0)
           | Inr (mid, c1) \<Rightarrow>
               (case insert_interaction io 1 (snd now) sender_model receiver_model mid c1 of
                  Inl e \<Rightarrow> (Inl e, close c1)
                | Inr c2 \<Rightarrow>
                    (case commit io c2 of
                       Inl e \<Rightarrow> (Inl e, close c2)
                     | Inr c3 \<Rightarrow> (Inr mid, close c3)))))"

text \<open>\<open>if message_id:\<close> is Python truthiness: neither \<open>None\<close> nor \<open>0\<close>.\<close>

definition receive_message :: "io \<Rightarrow> string \<Rightarrow> nat option \<Rightarrow> database \<Rightarrow> error + string option" where
  "receive_message io who mid db =
     (case connect io db of
        Inl e \<Rightarrow> Inl e
      | Inr c \<Rightarrow>
          (case (case mid of
                   None \<Rightarrow> select_latest io who c
                 | Some k \<Rightarrow> if k \<noteq> 0 then select_by_id io k who c
                             else select_latest io who c) of
             Inl e \<Rightarrow> Inl e
           | Inr rows \<Rightarrow>
               (case fetchone rows of
                  Some result \<Rightarrow> Inr (Some (fst result))
                | None \<Rightarrow> Inr None)))"

definition get_all_messages ::
  "io \<Rightarrow> database \<Rightarrow> error + (nat \<times> string \<times> string \<times> string \<times> nat) list" where
  "get_all_messages io db =
     (case connect io db of
        Inl e \<Rightarrow> Inl e
      | Inr c \<Rightarrow> select_all io c)"

subsection \<open>One turn\<close>

text \<open>What the world does during one pass of the loop of \<open>execute_turn\<close>: which storage
  steps fail while reading and while writing, and the two readings of the clock.\<close>

record env =
  recv_io :: io
  send_io :: io
  clock :: "nat \<times> nat"

definition initial_response :: "string \<Rightarrow> string" where
  "initial_response s = ''INITIAL: '' @ s"

definition relay_response :: "string \<Rightarrow> string \<Rightarrow> string" where
  "relay_response sender received =
     ''RESPONSE from '' @ sender @ '': I received '' @ [CHR 0x27] @ received @ [CHR 0x27]
       @ '' and my response is...''"

definition no_prior_response :: "string \<Rightarrow> string" where
  "no_prior_response sender =
     ''RESPONSE from '' @ sender @ '': No prior message received, starting conversation...''"

text \<open>\<open>if initial_message:\<close> and \<open>if received:\<close>: a string is true when it is there and
  not empty.\<close>

definition truthy :: "string option \<Rightarrow> bool" where
  "truthy s = (case s of None \<Rightarrow> False | Some t \<Rightarrow> t \<noteq> [])"

definition compute_response ::
  "io \<Rightarrow> string option \<Rightarrow> nat \<Rightarrow> string \<Rightarrow> database \<Rightarrow> error + string" where
  "compute_response io initial_message i sender_model db =
     (if i = 0 \<and> truthy initial_message then Inr (initial_response (the initial_message))
      else case receive_message io sender_model None db of
             Inl e \<Rightarrow> Inl e
           | Inr received \<Rightarrow>
               if truthy received then Inr (relay_response sender_model (the received))
               else Inr (no_prior_response sender_model))"

fun turn_loop ::
  "(nat \<Rightarrow> env) \<Rightarrow> string option \<Rightarrow> string list \<Rightarrow> nat list \<Rightarrow> string list \<Rightarrow> database
     \<Rightarrow> (error + string list) \<times> database" where
  "turn_loop world initial_message roster [] responses db = (Inr responses, db)"
| "turn_loop world initial_message roster (i # rest) responses db =
     (let sender_model = roster ! i;
          receiver_model = roster ! ((i + 1) mod length roster)
      in case compute_response (recv_io (world i)) initial_message i sender_model db of
           Inl e \<Rightarrow> (Inl e, db)
         | Inr response \<Rightarrow>
             (case send_message (send_io (world i)) (clock (world i))
                     sender_model receiver_model response ''text'' db of
                (Inl e, db') \<Rightarrow> (Inl e, db')
              | (Inr mid, db') \<Rightarrow>
                  turn_loop world initial_message roster rest (responses @ [response]) db'))"

definition execute_turn ::
  "(nat \<Rightarrow> env) \<Rightarrow> string option \<Rightarrow> mcp \<Rightarrow> database \<Rightarrow> (error + string list) \<times> database" where
  "execute_turn world initial_message self db =
     turn_loop world initial_message (models self) [0..<length (models self)] [] db"

subsection \<open>Sequences of calls\<close>

text \<open>
  The calls that change the file: the three methods that write, and the menu entry that
  removes the file and sets it up again. A store state is reachable when a sequence of
  such calls leads to it from the file that does not exist yet.
\<close>

datatype call =
    SetupDatabase io
  | SendMessage io "nat \<times> nat" string string string string
  | ExecuteTurn "nat \<Rightarrow> env" "string option" mcp
  | ClearDatabase io

fun perform :: "call \<Rightarrow> database \<Rightarrow> database" where
  "perform (SetupDatabase io) db = snd (setup_database io db)"
| "perform (SendMessage io now s r c t) db = snd (send_message io now s r c t db)"
| "perform (ExecuteTurn world initial_message self) db =
     snd (execute_turn world initial_message self db)"
| "perform (ClearDatabase io) db = snd (setup_database io empty_db)"

definition run :: "call list \<Rightarrow> database \<Rightarrow> database" where
  "run calls db = fold perform calls db"

section \<open>Properties of a store state\<close>

definition message_rows :: "database \<Rightarrow> message list" where
  "message_rows db = (case messages db of None \<Rightarrow> [] | Some ms \<Rightarrow> ms)"

definition interaction_rows :: "database \<Rightarrow> interaction list" where
  "interaction_rows db = (case model_interactions db of None \<Rightarrow> [] | Some rows \<Rightarrow> rows)"

text \<open>Every interaction references exactly one message that exists, and no message is
  referenced by two interactions.\<close>

definition handoff_inv :: "database \<Rightarrow> bool" where
  "handoff_inv db =
     ((\<forall>mi \<in> set (interaction_rows db).
         length (filter (\<lambda>m. msg_id m = message_id mi) (message_rows db)) = 1) \<and>
      (\<forall>m \<in> set (message_rows db).
         length (filter (\<lambda>mi. message_id mi = msg_id m) (interaction_rows db)) \<le> 1))"

text \<open>The stronger fact behind it: the two tables grow in step, the k-th interaction
  references the k-th message, and the message ids increase strictly.\<close>

definition lockstep :: "database \<Rightarrow> bool" where
  "lockstep db =
     (map message_id (interaction_rows db) = map msg_id (message_rows db) \<and>
      sorted_wrt (<) (map msg_id (message_rows db)))"

definition initialized :: "database \<Rightarrow> bool" where
  "initialized db = (messages db \<noteq> None \<and> model_interactions db \<noteq> None)"

text \<open>A method call during which no storage step fails, and a turn in which no call does.\<close>

definition fails :: "io \<Rightarrow> bool" where
  "fails io = (io Connect \<or> io (Execute 0) \<or> io (Execute 1) \<or> io Commit)"

definition quiet :: "(nat \<Rightarrow> env) \<Rightarrow> nat \<Rightarrow> bool" where
  "quiet world n = (\<forall>i<n. \<not> fails (recv_io (world i)) \<and> \<not> fails (send_io (world i)))"

definition quiet_world :: "(nat \<Rightarrow> nat \<times> nat) \<Rightarrow> nat \<Rightarrow> env" where
  "quiet_world clk i = \<lparr>recv_io = ok_io, send_io = ok_io, clock = clk i\<rparr>"

text \<open>The order of the history: by time, and by message id where the times are equal.\<close>

fun time_then_id ::
  "nat \<times> string \<times> string \<times> string \<times> nat \<Rightarrow> nat \<times> string \<times> string \<times> string \<times> nat \<Rightarrow> bool" where
  "time_then_id (i, s, r, c, t) (i', s', r', c', t') = (t < t' \<or> (t = t' \<and> i < i'))"

text \<open>The row of the history that a message and its interaction make.\<close>

fun history_row :: "message \<times> interaction \<Rightarrow> nat \<times> string \<times> string \<times> string \<times> nat" where
  "history_row (m, mi) =
     (msg_id m, model_id m, model2_id mi, message_content m, msg_timestamp m)"

text \<open>The store right after construction, and the roster of the scenarios.\<close>

definition fresh_db :: database where
  "fresh_db = snd (setup_database ok_io empty_db)"

definition abc :: mcp where
  "abc = \<lparr>db_path = ''mcp_database.db'', models = [''A'', ''B'', ''C''],
           current_model_index = 0\<rparr>"

lemma next_rowid_gt: "x \<in> set ids \<Longrightarrow> x < next_rowid ids"
  by (induction ids) (auto simp: next_rowid_def)

lemma send_message_eq:
  "send_message io now s r c t db =
     (case messages db of
        None \<Rightarrow> (Inl OperationalError, db)
      | Some ms \<Rightarrow>
          (case model_interactions db of
             None \<Rightarrow> (Inl OperationalError, db)
           | Some rows \<Rightarrow>
               if io Connect \<or> io (Execute 0) \<or> io (Execute 1) \<or> io Commit
               then (Inl OperationalError, db)
               else (Inr (next_rowid (map msg_id ms)),
                     \<lparr>messages = Some (ms @ [\<lparr>msg_id = next_rowid (map msg_id ms), model_id = s,
                                               message_type = t, message_content = c,
                                               msg_timestamp = fst now\<rparr>]),
                      model_interactions = Some (rows @ [\<lparr>interaction_id = next_rowid (map interaction_id rows),
                                               model1_id = s, model2_id = r,
                                               message_id = next_rowid (map msg_id ms),
                                               mi_timestamp = snd now\<rparr>])\<rparr>)))"
  by (cases db) (auto simp: send_message_def connect_def insert_message_def insert_interaction_def
      commit_def close_def Let_def split: option.splits)

lemma setup_database_eq:
  "setup_database io db =
     (if io Connect then (Inl OperationalError, db)
      else if io (Execute 0) then (Inl OperationalError, db)
      else if io (Execute 1)
        then (Inl OperationalError, db\<lparr>messages := Some (message_rows db)\<rparr>)
      else ((if io Commit then Inl OperationalError else Inr ()),
            \<lparr>messages = Some (message_rows db),
             model_interactions = Some (interaction_rows db)\<rparr>))"
  by (cases db) (auto simp: setup_database_def connect_def create_messages_def message_rows_def interaction_rows_def
      create_model_interactions_def ddl_def commit_def close_def split: option.splits)

lemma lockstep_send: "lockstep db \<Longrightarrow> lockstep (snd (send_message io now s r c t db))"
  by (auto simp: send_message_eq lockstep_def message_rows_def interaction_rows_def
      sorted_wrt_append next_rowid_gt split: option.splits)

lemma lockstep_setup: "lockstep db \<Longrightarrow> lockstep (snd (setup_database io db))"
  by (auto simp: setup_database_eq lockstep_def message_rows_def interaction_rows_def
      split: option.splits)

lemma lockstep_empty: "lockstep empty_db"
  by (simp add: lockstep_def empty_db_def message_rows_def interaction_rows_def)

lemma turn_loop_preserves:
  assumes step: "\<And>io now s r c t db. P db \<Longrightarrow> P (snd (send_message io now s r c t db))"
  shows "P db \<Longrightarrow> P (snd (turn_loop w init ms idxs rs db))"
proof (induction idxs arbitrary: rs db)
  case Nil
  then show ?case by simp
next
  case (Cons i rest)
  show ?case
  proof (cases "compute_response (recv_io (w i)) init i (ms ! i) db")
    case (Inl e)
    then show ?thesis using Cons.prems by simp
  next
    case (Inr response)
    obtain res db' where sm: "send_message (send_io (w i)) (clock (w i)) (ms ! i)
        (ms ! ((i + 1) mod length ms)) response ''text'' db = (res, db')"
      by (cases "send_message (send_io (w i)) (clock (w i)) (ms ! i)
        (ms ! ((i + 1) mod length ms)) response ''text'' db") blast
    have P': "P db'" using step [OF Cons.prems, of "send_io (w i)" "clock (w i)" "ms ! i"
        "ms ! ((i + 1) mod length ms)" response "''text''"] sm by simp
    show ?thesis
    proof (cases res)
      case (Inl e)
      then show ?thesis using Inr sm P' by simp
    next
      case (Inr mid)
      then show ?thesis using \<open>compute_response (recv_io (w i)) init i (ms ! i) db = Inr response\<close> sm Cons.IH [OF P'] by simp
    qed
  qed
qed

lemma lockstep_perform: "lockstep db \<Longrightarrow> lockstep (perform c db)"
  by (cases c) (auto simp: lockstep_send lockstep_setup lockstep_empty execute_turn_def
      intro: turn_loop_preserves)

lemma lockstep_run: "lockstep db \<Longrightarrow> lockstep (run calls db)"
  unfolding run_def by (induction calls arbitrary: db) (auto simp: lockstep_perform)

lemma filter_key_unique:
  "distinct (map f xs) \<Longrightarrow> x \<in> set xs \<Longrightarrow> filter (\<lambda>y. f y = f x) xs = [x]"
proof (induction xs)
  case Nil
  then show ?case by simp
next
  case (Cons a xs)
  then show ?case
    by (auto simp: filter_empty_conv image_iff) 
qed

lemma strict_sorted_distinct: "sorted_wrt (<) (ids::nat list) \<Longrightarrow> distinct ids"
  by (induction ids) auto

lemma join_rows_zip:
  assumes dm: "distinct (map msg_id M)"
    and zs: "\<forall>(m, mi) \<in> set zs. m \<in> set M \<and> message_id mi = msg_id m"
  shows "concat (map (\<lambda>mi. map (\<lambda>m. (m, mi)) (filter (\<lambda>m. msg_id m = message_id mi) M))
                     (filter P (map snd zs)))
         = filter (\<lambda>(m, mi). P mi) zs"
  using zs
proof (induction zs)
  case Nil
  then show ?case by simp
next
  case (Cons z zs)
  obtain m mi where z: "z = (m, mi)" by (cases z)
  from Cons.prems z have m: "m \<in> set M" "message_id mi = msg_id m" by auto
  from filter_key_unique [OF dm m(1)] m(2)
  have "filter (\<lambda>m'. msg_id m' = message_id mi) M = [m]" by simp
  with Cons z show ?case by simp
qed

lemma zip_lockstep_members:
  assumes "map message_id rows = map msg_id ms"
  shows "\<forall>(m, mi) \<in> set (zip ms rows). m \<in> set ms \<and> message_id mi = msg_id m"
proof -
  from assms have len: "length rows = length ms" by (metis length_map)
  have "message_id (rows ! i) = msg_id (ms ! i)" if "i < length ms" for i
    using that len assms by (metis nth_map)
  then show ?thesis by (auto simp: in_set_zip)
qed

lemma joined_lockstep:
  assumes "lockstep db" "messages db = Some ms" "model_interactions db = Some rows"
  shows "joined P db = Inr (filter (\<lambda>(m, mi). P mi) (zip ms rows))"
proof -
  from assms have eq: "map message_id rows = map msg_id ms" and dm: "distinct (map msg_id ms)"
    by (auto simp: lockstep_def message_rows_def interaction_rows_def strict_sorted_distinct)
  from eq have len: "length rows = length ms" by (metis length_map)
  then have snd: "map snd (zip ms rows) = rows" by simp
  from join_rows_zip [OF dm zip_lockstep_members [OF eq], of P] snd
  show ?thesis using assms(2,3) by (simp add: joined_def)
qed

subsection \<open>A stable sort orders by time, then by id\<close>

lemma insort_time_then_id:
  fixes key :: "'a \<Rightarrow> nat" and ident :: "'a \<Rightarrow> nat"
  assumes "sorted_wrt (\<lambda>a b. key a < key b \<or> (key a = key b \<and> ident a < ident b)) ys"
    and "\<forall>y \<in> set ys. ident x < ident y"
  shows "sorted_wrt (\<lambda>a b. key a < key b \<or> (key a = key b \<and> ident a < ident b))
           (insort_key key x ys)"
  using assms
proof (induction ys)
  case Nil
  then show ?case by simp
next
  case (Cons y ys)
  show ?case
  proof (cases "key x \<le> key y")
    case True
    have "key x < key z \<or> (key x = key z \<and> ident x < ident z)" if "z \<in> set (y # ys)" for z
    proof -
      have "key y \<le> key z" using that Cons.prems(1) by auto
      moreover have "ident x < ident z" using that Cons.prems(2) by auto
      ultimately show ?thesis using True by auto
    qed
    with True Cons.prems(1) show ?thesis by simp
  next
    case False
    have "sorted_wrt (\<lambda>a b. key a < key b \<or> (key a = key b \<and> ident a < ident b))
            (insort_key key x ys)"
      using Cons by simp
    moreover have "key y < key z \<or> (key y = key z \<and> ident y < ident z)"
      if "z \<in> set (insort_key key x ys)" for z
      using that False Cons.prems(1) by (auto simp: set_insort_key)
    ultimately show ?thesis using False by simp
  qed
qed

lemma sort_key_time_then_id:
  fixes key :: "'a \<Rightarrow> nat" and ident :: "'a \<Rightarrow> nat"
  assumes "sorted_wrt (<) (map ident xs)"
  shows "sorted_wrt (\<lambda>a b. key a < key b \<or> (key a = key b \<and> ident a < ident b))
           (sort_key key xs)"
  using assms
proof (induction xs)
  case Nil
  then show ?case by simp
next
  case (Cons x xs)
  have "\<forall>y \<in> set (sort_key key xs). ident x < ident y" using Cons.prems by simp
  with Cons show ?case by (simp add: sort_key_def insort_time_then_id del: sort_key_simps) 
qed

lemma receive_message_quiet:
  "\<not> fails io \<Longrightarrow> receive_message io who mid db = receive_message ok_io who mid db"
  by (cases mid)
    (simp_all add: fails_def receive_message_def connect_def select_latest_def select_by_id_def
      ok_io_def)

lemma ok_io_apply: "ok_io st = False"
  by (simp add: ok_io_def)

lemma not_fails_ok_io: "\<not> fails ok_io"
  by (simp add: fails_def ok_io_def)

lemma receive_latest_eq:
  "receive_message ok_io who None db =
     (case joined (\<lambda>mi. model2_id mi = who) db of
        Inl e \<Rightarrow> Inl e
      | Inr rows \<Rightarrow>
          Inr (case newest_first rows of [] \<Rightarrow> None | r # _ \<Rightarrow> Some (message_content (fst r))))"
  by (auto simp: receive_message_def connect_def select_latest_def ok_io_def fetchone_def
      split: sum.splits list.splits)

lemma joined_initialized: "initialized db \<Longrightarrow> \<exists>rows. joined P db = Inr rows"
  by (auto simp: initialized_def joined_def)

lemma compute_response_quiet:
  "\<not> fails io \<Longrightarrow> compute_response io init i s db = compute_response ok_io init i s db"
  by (simp add: compute_response_def receive_message_quiet)

lemma compute_response_ok:
  assumes "initialized db"
  shows "\<exists>r. compute_response ok_io init i s db = Inr r"
proof -
  from joined_initialized [OF assms] obtain rows
    where "joined (\<lambda>mi. model2_id mi = s) db = Inr rows" by blast
  then show ?thesis by (simp add: compute_response_def receive_latest_eq)
qed

lemma send_message_ok:
  assumes "messages db = Some ms" "model_interactions db = Some rows" "\<not> fails io"
  shows "send_message io now s r c t db =
     (Inr (next_rowid (map msg_id ms)),
      \<lparr>messages = Some (ms @ [\<lparr>msg_id = next_rowid (map msg_id ms), model_id = s,
                                message_type = t, message_content = c,
                                msg_timestamp = fst now\<rparr>]),
       model_interactions = Some (rows @ [\<lparr>interaction_id = next_rowid (map interaction_id rows),
                                model1_id = s, model2_id = r,
                                message_id = next_rowid (map msg_id ms),
                                mi_timestamp = snd now\<rparr>])\<rparr>)"
  using assms by (simp add: send_message_eq fails_def)

lemma turn_loop_ok:
  assumes "\<forall>i \<in> set idxs. \<not> fails (recv_io (w i)) \<and> \<not> fails (send_io (w i))"
    and "initialized db"
  shows "\<exists>rs' new_m new_i.
      turn_loop w init mdl idxs rs db =
        (Inr (rs @ rs'), \<lparr>messages = Some (message_rows db @ new_m),
                          model_interactions = Some (interaction_rows db @ new_i)\<rparr>)
      \<and> length rs' = length idxs
      \<and> map model_id new_m = map ((!) mdl) idxs
      \<and> map message_content new_m = rs'
      \<and> map model1_id new_i = map ((!) mdl) idxs
      \<and> map model2_id new_i = map (\<lambda>i. mdl ! ((i + 1) mod length mdl)) idxs
      \<and> map message_id new_i = map msg_id new_m
      \<and> (idxs \<noteq> [] \<longrightarrow> compute_response ok_io init (hd idxs) (mdl ! hd idxs) db = Inr (hd rs'))"
  using assms
proof (induction idxs arbitrary: rs db)
  case Nil
  then show ?case
    by (cases db) (auto simp: initialized_def message_rows_def interaction_rows_def)
next
  case (Cons i rest)
  from Cons.prems have q: "\<not> fails (recv_io (w i))" "\<not> fails (send_io (w i))"
    and qrest: "\<forall>j \<in> set rest. \<not> fails (recv_io (w j)) \<and> \<not> fails (send_io (w j))"
    by auto
  from Cons.prems(2) obtain ms rows
    where tabs: "messages db = Some ms" "model_interactions db = Some rows"
    by (auto simp: initialized_def)
  from compute_response_ok [OF Cons.prems(2)] obtain r
    where r: "compute_response ok_io init i (mdl ! i) db = Inr r" by blast
  then have r': "compute_response (recv_io (w i)) init i (mdl ! i) db = Inr r"
    using q(1) by (simp add: compute_response_quiet)
  define row where "row = \<lparr>msg_id = next_rowid (map msg_id ms), model_id = mdl ! i,
      message_type = ''text'', message_content = r, msg_timestamp = fst (clock (w i))\<rparr>"
  define irow where "irow = \<lparr>interaction_id = next_rowid (map interaction_id rows),
      model1_id = mdl ! i, model2_id = mdl ! ((i + 1) mod length mdl),
      message_id = next_rowid (map msg_id ms), mi_timestamp = snd (clock (w i))\<rparr>"
  define db1 where "db1 = \<lparr>messages = Some (ms @ [row]), model_interactions = Some (rows @ [irow])\<rparr>"
  have sm: "send_message (send_io (w i)) (clock (w i)) (mdl ! i) (mdl ! ((i + 1) mod length mdl))
      r ''text'' db = (Inr (next_rowid (map msg_id ms)), db1)"
    using send_message_ok [OF tabs q(2)] by (simp add: db1_def row_def irow_def)
  have init1: "initialized db1" by (simp add: db1_def initialized_def)
  have rows1: "message_rows db1 = message_rows db @ [row]"
    "interaction_rows db1 = interaction_rows db @ [irow]"
    using tabs by (simp_all add: db1_def message_rows_def interaction_rows_def)
  from Cons.IH [OF qrest init1, of "rs @ [r]"] obtain rs'' nm ni where ih:
    "turn_loop w init mdl rest (rs @ [r]) db1 =
        (Inr ((rs @ [r]) @ rs''), \<lparr>messages = Some (message_rows db1 @ nm),
                          model_interactions = Some (interaction_rows db1 @ ni)\<rparr>)"
    "length rs'' = length rest"
    "map model_id nm = map ((!) mdl) rest"
    "map message_content nm = rs''"
    "map model1_id ni = map ((!) mdl) rest"
    "map model2_id ni = map (\<lambda>i. mdl ! ((i + 1) mod length mdl)) rest"
    "map message_id ni = map msg_id nm"
    by blast
  have step: "turn_loop w init mdl (i # rest) rs db = turn_loop w init mdl rest (rs @ [r]) db1"
    using r' sm by simp
  show ?case
    apply (rule exI [of _ "r # rs''"])
    apply (rule exI [of _ "row # nm"])
    apply (rule exI [of _ "irow # ni"])
    using step ih r rows1 by (simp add: row_def irow_def)
qed

lemma roster_senders: "map ((!) xs) [0..<length xs] = xs"
  by (rule map_nth)

section \<open>Appending a message\<close>

text \<open>
  C4. \<open>send_message\<close> appends exactly one message and then exactly one interaction that
  references it, and returns the id of the new message; this happens when both tables exist
  and no storage step fails. In every other case the error of \<open>sqlite3\<close> reaches the
  caller and the file is what it was before the call: both rows persist or neither does.
\<close>

theorem send_message_atomic:
  "send_message io now s r c t db =
     (if initialized db \<and> \<not> fails io
      then (Inr (next_rowid (map msg_id (message_rows db))),
            \<lparr>messages = Some (message_rows db @
               [\<lparr>msg_id = next_rowid (map msg_id (message_rows db)), model_id = s,
                 message_type = t, message_content = c, msg_timestamp = fst now\<rparr>]),
             model_interactions = Some (interaction_rows db @
               [\<lparr>interaction_id = next_rowid (map interaction_id (interaction_rows db)),
                 model1_id = s, model2_id = r,
                 message_id = next_rowid (map msg_id (message_rows db)),
                 mi_timestamp = snd now\<rparr>])\<rparr>)
      else (Inl OperationalError, db))"
  by (auto simp: send_message_eq initialized_def fails_def message_rows_def interaction_rows_def
      split: option.splits)

lemma fresh_db_eq: "fresh_db = \<lparr>messages = Some [], model_interactions = Some []\<rparr>"
  by (simp add: fresh_db_def setup_database_eq ok_io_def empty_db_def message_rows_def
      interaction_rows_def)

lemma next_rowid_Nil: "next_rowid [] = 1"
  by (simp add: next_rowid_def)

theorem send_message_atomic_witness:
  "send_message ok_io (5, 5) ''A'' ''B'' ''hi'' ''text'' fresh_db =
     (Inr 1,
      \<lparr>messages = Some [\<lparr>msg_id = 1, model_id = ''A'', message_type = ''text'',
                          message_content = ''hi'', msg_timestamp = 5\<rparr>],
       model_interactions = Some [\<lparr>interaction_id = 1, model1_id = ''A'', model2_id = ''B'',
                          message_id = 1, mi_timestamp = 5\<rparr>]\<rparr>) \<and>
   send_message (\<lambda>st. st = Execute 1) (5, 5) ''A'' ''B'' ''hi'' ''text'' fresh_db =
     (Inl OperationalError, fresh_db)"
  using send_message_atomic [of ok_io "(5, 5)" "''A''" "''B''" "''hi''" "''text''" fresh_db]
    send_message_atomic [of "\<lambda>st. st = Execute 1" "(5, 5)" "''A''" "''B''" "''hi''" "''text''" fresh_db]
  by (simp add: fresh_db_eq initialized_def fails_def ok_io_def message_rows_def
      interaction_rows_def next_rowid_Nil)

section \<open>Setting the database up twice\<close>

text \<open>
  C9. After a call of \<open>setup_database\<close> that succeeded, a second call during which no
  storage step fails does not raise and leaves the file as it is, and the first call has
  kept every message and every interaction that was there, in an empty store as in a
  populated one.
\<close>

theorem setup_database_idempotent:
  "fst (setup_database io db) = Inr () \<Longrightarrow> \<not> fails io2 \<Longrightarrow>
     setup_database io2 (snd (setup_database io db)) = (Inr (), snd (setup_database io db)) \<and>
     message_rows (snd (setup_database io db)) = message_rows db \<and>
     interaction_rows (snd (setup_database io db)) = interaction_rows db"
  by (auto simp: setup_database_eq fails_def message_rows_def interaction_rows_def
      split: if_splits option.splits)

theorem setup_database_idempotent_witness:
  "fst (setup_database ok_io (snd (send_message ok_io (5, 5) ''A'' ''B'' ''hi'' ''text'' fresh_db)))
     = Inr () \<and>
   \<not> fails ok_io \<and>
   setup_database ok_io
     (snd (setup_database ok_io (snd (send_message ok_io (5, 5) ''A'' ''B'' ''hi'' ''text'' fresh_db))))
     = (Inr (), snd (send_message ok_io (5, 5) ''A'' ''B'' ''hi'' ''text'' fresh_db)) \<and>
   message_rows
     (snd (setup_database ok_io (snd (send_message ok_io (5, 5) ''A'' ''B'' ''hi'' ''text'' fresh_db))))
     = [\<lparr>msg_id = 1, model_id = ''A'', message_type = ''text'', message_content = ''hi'',
         msg_timestamp = 5\<rparr>]"
proof -
  let ?D = "snd (send_message ok_io (5, 5) ''A'' ''B'' ''hi'' ''text'' fresh_db)"
  have D: "?D = \<lparr>messages = Some [\<lparr>msg_id = 1, model_id = ''A'', message_type = ''text'',
                       message_content = ''hi'', msg_timestamp = 5\<rparr>],
                  model_interactions = Some [\<lparr>interaction_id = 1, model1_id = ''A'',
                       model2_id = ''B'', message_id = 1, mi_timestamp = 5\<rparr>]\<rparr>"
    by (simp add: send_message_eq fresh_db_eq ok_io_apply next_rowid_Nil)
  have h1: "fst (setup_database ok_io ?D) = Inr ()"
    by (simp add: setup_database_eq ok_io_apply)
  have h2: "\<not> fails ok_io" by (rule not_fails_ok_io)
  have same: "snd (setup_database ok_io ?D) = ?D"
    unfolding D by (simp add: setup_database_eq ok_io_apply message_rows_def interaction_rows_def)
  from setup_database_idempotent [OF h1 h2] h1 h2 same show ?thesis
    by (simp add: D message_rows_def)
qed

lemma setup_database_keeps_rows:
  "message_rows (snd (setup_database io db)) = message_rows db \<and>
   interaction_rows (snd (setup_database io db)) = interaction_rows db"
  by (auto simp: setup_database_eq message_rows_def interaction_rows_def
      split: if_splits option.splits)

section \<open>Turns\<close>

lemma compute_response_empty_seed:
  "compute_response io (Some []) i s db = compute_response io None i s db"
  by (simp add: compute_response_def truthy_def)

lemma turn_loop_empty_seed:
  "turn_loop w (Some []) mdl idxs rs db = turn_loop w None mdl idxs rs db"
  by (induction idxs arbitrary: rs db)
    (auto simp: compute_response_empty_seed Let_def split: sum.splits prod.splits)

lemma upt_3: "[0..<3] = [0, 1, 2]"
  by (simp add: upt_rec)

lemma quiet_world_simps:
  "recv_io (quiet_world clk i) = ok_io" "send_io (quiet_world clk i) = ok_io"
  "clock (quiet_world clk i) = clk i"
  by (simp_all add: quiet_world_def)

lemma seeded_turn:
  "execute_turn (quiet_world clk) (Some ''hello'') abc fresh_db =
     (Inr [''INITIAL: hello'',
           ''RESPONSE from B: I received 'INITIAL: hello' and my response is...'',
           ''RESPONSE from C: I received 'RESPONSE from B: I received 'INITIAL: hello' and my response is...' and my response is...''],
      \<lparr>messages = Some
         [\<lparr>msg_id = 1, model_id = ''A'', message_type = ''text'',
           message_content = ''INITIAL: hello'', msg_timestamp = fst (clk 0)\<rparr>,
          \<lparr>msg_id = 2, model_id = ''B'', message_type = ''text'',
           message_content = ''RESPONSE from B: I received 'INITIAL: hello' and my response is...'',
           msg_timestamp = fst (clk 1)\<rparr>,
          \<lparr>msg_id = 3, model_id = ''C'', message_type = ''text'',
           message_content = ''RESPONSE from C: I received 'RESPONSE from B: I received 'INITIAL: hello' and my response is...' and my response is...'',
           msg_timestamp = fst (clk 2)\<rparr>],
       model_interactions = Some
         [\<lparr>interaction_id = 1, model1_id = ''A'', model2_id = ''B'', message_id = 1,
           mi_timestamp = snd (clk 0)\<rparr>,
          \<lparr>interaction_id = 2, model1_id = ''B'', model2_id = ''C'', message_id = 2,
           mi_timestamp = snd (clk 1)\<rparr>,
          \<lparr>interaction_id = 3, model1_id = ''C'', model2_id = ''A'', message_id = 3,
           mi_timestamp = snd (clk 2)\<rparr>]\<rparr>)"
  by (simp add: execute_turn_def abc_def fresh_db_eq upt_3 quiet_world_simps
      compute_response_def truthy_def receive_latest_eq joined_def newest_first_def
      send_message_eq ok_io_apply next_rowid_def initial_response_def relay_response_def
      Let_def numeral_2_eq_2)

lemma unseeded_turn_fresh:
  "fst (execute_turn (quiet_world clk) None abc fresh_db) =
     Inr [no_prior_response ''A'',
          relay_response ''B'' (no_prior_response ''A''),
          relay_response ''C'' (relay_response ''B'' (no_prior_response ''A''))]"
  by (simp add: execute_turn_def abc_def fresh_db_eq upt_3 quiet_world_simps
      compute_response_def truthy_def receive_latest_eq joined_def newest_first_def
      send_message_eq ok_io_apply next_rowid_def no_prior_response_def relay_response_def
      Let_def numeral_2_eq_2)

text \<open>
  C10. A turn whose initial message is the empty string is the turn without an initial
  message: the first model gives no \<open>INITIAL:\<close> response but looks its latest message
  up, and on the store right after construction it gives the response for no prior message.
\<close>

theorem empty_seed_is_no_seed:
  "execute_turn w (Some []) self db = execute_turn w None self db \<and>
   compute_response io (Some []) 0 s db =
     (case receive_message io s None db of
        Inl e \<Rightarrow> Inl e
      | Inr received \<Rightarrow>
          if truthy received then Inr (relay_response s (the received))
          else Inr (no_prior_response s)) \<and>
   fst (execute_turn (quiet_world clk) (Some []) abc fresh_db) =
     Inr [no_prior_response ''A'',
          relay_response ''B'' (no_prior_response ''A''),
          relay_response ''C'' (relay_response ''B'' (no_prior_response ''A''))]"
proof -
  have eq: "execute_turn w (Some []) self db = execute_turn w None self db" for w self db
    by (simp add: execute_turn_def turn_loop_empty_seed)
  have "compute_response io (Some []) 0 s db =
     (case receive_message io s None db of
        Inl e \<Rightarrow> Inl e
      | Inr received \<Rightarrow>
          if truthy received then Inr (relay_response s (the received))
          else Inr (no_prior_response s))"
    by (simp add: compute_response_def truthy_def)
  then show ?thesis using eq unseeded_turn_fresh by simp
qed

text \<open>
  C5. On the store right after construction, the turn of the roster A, B, C with the initial
  message \<open>hello\<close> returns three responses: \<open>INITIAL: hello\<close>, then the response of B to the
  message of A, then the response of C to the message of B. Afterwards the store holds
  exactly three messages and three interactions, from A to B, from B to C and from C to A.
\<close>

theorem seeded_turn_abc:
  "execute_turn (quiet_world clk) (Some ''hello'') abc fresh_db =
     (Inr [''INITIAL: hello'',
           ''RESPONSE from B: I received 'INITIAL: hello' and my response is...'',
           ''RESPONSE from C: I received 'RESPONSE from B: I received 'INITIAL: hello' and my response is...' and my response is...''],
      \<lparr>messages = Some
         [\<lparr>msg_id = 1, model_id = ''A'', message_type = ''text'',
           message_content = ''INITIAL: hello'', msg_timestamp = fst (clk 0)\<rparr>,
          \<lparr>msg_id = 2, model_id = ''B'', message_type = ''text'',
           message_content = ''RESPONSE from B: I received 'INITIAL: hello' and my response is...'',
           msg_timestamp = fst (clk 1)\<rparr>,
          \<lparr>msg_id = 3, model_id = ''C'', message_type = ''text'',
           message_content = ''RESPONSE from C: I received 'RESPONSE from B: I received 'INITIAL: hello' and my response is...' and my response is...'',
           msg_timestamp = fst (clk 2)\<rparr>],
       model_interactions = Some
         [\<lparr>interaction_id = 1, model1_id = ''A'', model2_id = ''B'', message_id = 1,
           mi_timestamp = snd (clk 0)\<rparr>,
          \<lparr>interaction_id = 2, model1_id = ''B'', model2_id = ''C'', message_id = 2,
           mi_timestamp = snd (clk 1)\<rparr>,
          \<lparr>interaction_id = 3, model1_id = ''C'', model2_id = ''A'', message_id = 3,
           mi_timestamp = snd (clk 2)\<rparr>]\<rparr>)"
  by (rule seeded_turn)

lemma roster_receivers_Suc:
  "map (\<lambda>i. xs ! (Suc i mod length xs)) [0..<length xs] = rotate1 xs"
  by (rule nth_equalityI) (simp_all add: nth_rotate1)

lemma quiet_set:
  "quiet w n \<Longrightarrow> \<forall>i \<in> set [0..<n]. \<not> fails (recv_io (w i)) \<and> \<not> fails (send_io (w i))"
  by (simp add: quiet_def)

lemma execute_turn_ok:
  assumes "initialized db" "quiet w (length (models self))"
  shows "\<exists>rs new_m new_i.
      execute_turn w init self db =
        (Inr rs, \<lparr>messages = Some (message_rows db @ new_m),
                  model_interactions = Some (interaction_rows db @ new_i)\<rparr>)
      \<and> length rs = length (models self)
      \<and> map model_id new_m = models self
      \<and> map message_content new_m = rs
      \<and> map model1_id new_i = models self
      \<and> map model2_id new_i = rotate1 (models self)
      \<and> map message_id new_i = map msg_id new_m
      \<and> (models self \<noteq> [] \<longrightarrow>
           compute_response ok_io init 0 (models self ! 0) db = Inr (rs ! 0))"
proof -
  let ?n = "length (models self)"
  from turn_loop_ok [OF quiet_set [OF assms(2)] assms(1), of init "models self" "[]"]
  obtain rs new_m new_i where t:
    "turn_loop w init (models self) [0..<?n] [] db =
        (Inr ([] @ rs), \<lparr>messages = Some (message_rows db @ new_m),
                          model_interactions = Some (interaction_rows db @ new_i)\<rparr>)"
    "length rs = length [0..<?n]"
    "map model_id new_m = map ((!) (models self)) [0..<?n]"
    "map message_content new_m = rs"
    "map model1_id new_i = map ((!) (models self)) [0..<?n]"
    "map model2_id new_i = map (\<lambda>i. models self ! ((i + 1) mod ?n)) [0..<?n]"
    "map message_id new_i = map msg_id new_m"
    "[0..<?n] \<noteq> [] \<longrightarrow>
       compute_response ok_io init (hd [0..<?n]) (models self ! hd [0..<?n]) db = Inr (hd rs)"
    by blast
  have first: "models self \<noteq> [] \<longrightarrow>
      compute_response ok_io init 0 (models self ! 0) db = Inr (rs ! 0)"
  proof
    assume ne: "models self \<noteq> []"
    then have "hd [0..<?n] = 0" by (simp add: upt_rec)
    moreover from ne t(2) have "rs \<noteq> []" by auto
    ultimately show "compute_response ok_io init 0 (models self ! 0) db = Inr (rs ! 0)"
      using t(8) ne by (simp add: hd_conv_nth)
  qed
  show ?thesis
    apply (rule exI [of _ rs])
    apply (rule exI [of _ new_m])
    apply (rule exI [of _ new_i])
    using t first by (simp add: execute_turn_def roster_senders roster_receivers_Suc)
qed

text \<open>
  C1. With an empty roster \<open>execute_turn\<close> returns the empty list and leaves the store
  untouched. With a roster of any length, on a store whose tables exist and in a turn during
  which no storage step fails, it returns as many responses as the roster has entries: the
  k-th response is the content of the k-th message that the turn appended, whose sender is
  the k-th entry of the roster and whose receiver is the entry after it, cyclically.
\<close>

theorem execute_turn_responses:
  "(models self = [] \<longrightarrow> execute_turn w init self db = (Inr [], db)) \<and>
   (initialized db \<and> quiet w (length (models self)) \<longrightarrow>
     (\<exists>rs new_m new_i.
        execute_turn w init self db =
          (Inr rs, \<lparr>messages = Some (message_rows db @ new_m),
                    model_interactions = Some (interaction_rows db @ new_i)\<rparr>)
        \<and> length rs = length (models self)
        \<and> map model_id new_m = models self
        \<and> map message_content new_m = rs
        \<and> map model1_id new_i = models self
        \<and> map model2_id new_i = rotate1 (models self)
        \<and> map message_id new_i = map msg_id new_m))"
proof (intro conjI impI)
  assume "models self = []"
  then show "execute_turn w init self db = (Inr [], db)"
    by (simp add: execute_turn_def)
next
  assume "initialized db \<and> quiet w (length (models self))"
  then have "initialized db" "quiet w (length (models self))" by simp_all
  from execute_turn_ok [OF this, of init] show "\<exists>rs new_m new_i.
        execute_turn w init self db =
          (Inr rs, \<lparr>messages = Some (message_rows db @ new_m),
                    model_interactions = Some (interaction_rows db @ new_i)\<rparr>)
        \<and> length rs = length (models self)
        \<and> map model_id new_m = models self
        \<and> map message_content new_m = rs
        \<and> map model1_id new_i = models self
        \<and> map model2_id new_i = rotate1 (models self)
        \<and> map message_id new_i = map msg_id new_m"
    by blast
qed

lemma quiet_quiet_world: "quiet (quiet_world clk) n"
  by (simp add: quiet_def quiet_world_simps not_fails_ok_io)

lemma initialized_fresh_db: "initialized fresh_db"
  by (simp add: initialized_def fresh_db_eq)

theorem execute_turn_responses_witness:
  "models (abc\<lparr>models := []\<rparr>) = [] \<and>
   execute_turn (quiet_world (\<lambda>i. (i, i))) None (abc\<lparr>models := []\<rparr>) fresh_db = (Inr [], fresh_db) \<and>
   initialized fresh_db \<and> quiet (quiet_world (\<lambda>i. (i, i))) (length (models abc)) \<and>
   (\<exists>rs new_m new_i.
      execute_turn (quiet_world (\<lambda>i. (i, i))) (Some ''hello'') abc fresh_db =
        (Inr rs, \<lparr>messages = Some (message_rows fresh_db @ new_m),
                  model_interactions = Some (interaction_rows fresh_db @ new_i)\<rparr>)
      \<and> length rs = 3
      \<and> map model_id new_m = [''A'', ''B'', ''C'']
      \<and> map message_content new_m = rs
      \<and> map model1_id new_i = [''A'', ''B'', ''C'']
      \<and> map model2_id new_i = [''B'', ''C'', ''A'']
      \<and> map message_id new_i = map msg_id new_m)"
  using execute_turn_responses [of "abc\<lparr>models := []\<rparr>" "quiet_world (\<lambda>i. (i, i))" None fresh_db]
    execute_turn_responses [of abc "quiet_world (\<lambda>i. (i, i))" "Some ''hello''" fresh_db]
    quiet_quiet_world [of "\<lambda>i. (i, i)" "length (models abc)"] initialized_fresh_db
  by (simp add: abc_def numeral_3_eq_3)

section \<open>One interaction for each message\<close>

lemma send_message_cases:
  "send_message io now s r c t db =
     (if initialized db \<and> \<not> fails io
      then (Inr (next_rowid (map msg_id (message_rows db))),
            \<lparr>messages = Some (message_rows db @
               [\<lparr>msg_id = next_rowid (map msg_id (message_rows db)), model_id = s,
                 message_type = t, message_content = c, msg_timestamp = fst now\<rparr>]),
             model_interactions = Some (interaction_rows db @
               [\<lparr>interaction_id = next_rowid (map interaction_id (interaction_rows db)),
                 model1_id = s, model2_id = r,
                 message_id = next_rowid (map msg_id (message_rows db)),
                 mi_timestamp = snd now\<rparr>])\<rparr>)
      else (Inl OperationalError, db))"
  by (auto simp: send_message_eq initialized_def fails_def message_rows_def interaction_rows_def
      split: option.splits)

lemma handoff_inv_send:
  assumes "handoff_inv db"
  shows "handoff_inv (snd (send_message io now s r c t db))"
proof (cases "initialized db \<and> \<not> fails io")
  case False
  then show ?thesis using assms by (auto simp: send_message_cases)
next
  case True
  let ?ms = "message_rows db" and ?rows = "interaction_rows db"
  let ?n = "next_rowid (map msg_id ?ms)"
  have old_m: "msg_id m \<noteq> ?n" if "m \<in> set ?ms" for m
    using next_rowid_gt [of "msg_id m" "map msg_id ?ms"] that by auto
  have old_i: "message_id mi \<noteq> ?n" if "mi \<in> set ?rows" for mi
  proof -
    from assms that have "length (filter (\<lambda>m. msg_id m = message_id mi) ?ms) = 1"
      by (simp add: handoff_inv_def)
    then have "filter (\<lambda>m. msg_id m = message_id mi) ?ms \<noteq> []" by auto
    then obtain m where "m \<in> set ?ms" "msg_id m = message_id mi"
      by (auto simp: filter_empty_conv)
    with old_m show ?thesis by metis
  qed
  have none_m: "filter (\<lambda>m. msg_id m = ?n) ?ms = []"
    using old_m by (auto simp: filter_empty_conv)
  have none_i: "filter (\<lambda>mi. message_id mi = ?n) ?rows = []"
    using old_i by (auto simp: filter_empty_conv)
  from True assms old_m old_i none_m none_i show ?thesis
    by (auto simp: send_message_cases handoff_inv_def message_rows_def interaction_rows_def)
qed

lemma handoff_inv_setup: "handoff_inv db \<Longrightarrow> handoff_inv (snd (setup_database io db))"
  by (simp add: handoff_inv_def setup_database_keeps_rows)

lemma handoff_inv_empty: "handoff_inv empty_db"
  by (simp add: handoff_inv_def empty_db_def message_rows_def interaction_rows_def)

lemma handoff_inv_perform: "handoff_inv db \<Longrightarrow> handoff_inv (perform c db)"
  by (cases c) (auto simp: handoff_inv_send handoff_inv_setup handoff_inv_empty execute_turn_def
      intro: turn_loop_preserves)

lemma handoff_inv_run: "handoff_inv db \<Longrightarrow> handoff_inv (run calls db)"
  unfolding run_def by (induction calls arbitrary: db) (auto simp: handoff_inv_perform)

text \<open>
  C8. In every store state that a sequence of calls reaches from the file that does not
  exist yet, every interaction references exactly one message that exists and no message is
  referenced by two interactions; and every call keeps this true of any store of which it
  is true, whether the call succeeds or raises.
\<close>

theorem handoff_inv_reachable:
  "handoff_inv (run calls empty_db) \<and> (handoff_inv db \<longrightarrow> handoff_inv (perform c db))"
  by (simp add: handoff_inv_run handoff_inv_empty handoff_inv_perform)

lemma run_setup_turn:
  "run [SetupDatabase ok_io, ExecuteTurn (quiet_world clk) (Some ''hello'') abc] empty_db =
     snd (execute_turn (quiet_world clk) (Some ''hello'') abc fresh_db)"
  by (simp add: run_def fresh_db_def)

theorem handoff_inv_reachable_witness:
  "length (message_rows
     (run [SetupDatabase ok_io, ExecuteTurn (quiet_world (\<lambda>i. (i, i))) (Some ''hello'') abc]
        empty_db)) = 3 \<and>
   handoff_inv
     (run [SetupDatabase ok_io, ExecuteTurn (quiet_world (\<lambda>i. (i, i))) (Some ''hello'') abc]
        empty_db) \<and>
   handoff_inv
     (perform (SendMessage ok_io (9, 9) ''A'' ''C'' ''again'' ''text'')
        (run [SetupDatabase ok_io, ExecuteTurn (quiet_world (\<lambda>i. (i, i))) (Some ''hello'') abc]
           empty_db))"
  using handoff_inv_reachable
      [of "[SetupDatabase ok_io, ExecuteTurn (quiet_world (\<lambda>i. (i, i))) (Some ''hello'') abc]"
          "run [SetupDatabase ok_io, ExecuteTurn (quiet_world (\<lambda>i. (i, i))) (Some ''hello'') abc]
             empty_db"
          "SendMessage ok_io (9, 9) ''A'' ''C'' ''again'' ''text''"]
  by (simp add: run_setup_turn seeded_turn message_rows_def)

section \<open>Reading a message back by its id\<close>

lemma send_message_Inr:
  assumes "send_message io now s r c t db = (Inr mid, db')"
  shows "initialized db \<and> mid = next_rowid (map msg_id (message_rows db)) \<and>
     db' = \<lparr>messages = Some (message_rows db @
               [\<lparr>msg_id = mid, model_id = s, message_type = t, message_content = c,
                 msg_timestamp = fst now\<rparr>]),
            model_interactions = Some (interaction_rows db @
               [\<lparr>interaction_id = next_rowid (map interaction_id (interaction_rows db)),
                 model1_id = s, model2_id = r, message_id = mid,
                 mi_timestamp = snd now\<rparr>])\<rparr>"
  using assms by (auto simp: send_message_cases split: if_splits)

lemma fetch_first:
  "(case fetchone rows of Some result \<Rightarrow> Inr (Some (fst result)) | None \<Rightarrow> Inr None) =
     Inr (fetchone (map fst rows))"
  by (cases rows) (simp_all add: fetchone_def)

lemma receive_by_id_eq:
  "k \<noteq> 0 \<Longrightarrow>
   receive_message ok_io who (Some k) \<lparr>messages = Some ms, model_interactions = Some rows\<rparr> =
     Inr (fetchone (map fst
       (concat (map (\<lambda>m. map (\<lambda>mi. (message_content m, model_id m))
                         (filter (\<lambda>mi. msg_id m = message_id mi \<and> message_id mi = k \<and>
                                       model2_id mi = who) rows))
                    (filter (\<lambda>m. msg_id m = k) ms)))))"
  by (simp add: receive_message_def connect_def select_by_id_def ok_io_apply fetch_first)

lemma receive_fresh_id:
  assumes lock: "lockstep db"
    and sent: "send_message io now s R c t db = (Inr mid, db')"
  shows "receive_message ok_io R' (Some mid) db' = Inr (if R' = R then Some c else None)"
proof -
  let ?ms = "message_rows db" and ?rows = "interaction_rows db"
  from send_message_Inr [OF sent] have mid: "mid = next_rowid (map msg_id ?ms)"
    and db': "db' = \<lparr>messages = Some (?ms @
               [\<lparr>msg_id = mid, model_id = s, message_type = t, message_content = c,
                 msg_timestamp = fst now\<rparr>]),
            model_interactions = Some (?rows @
               [\<lparr>interaction_id = next_rowid (map interaction_id ?rows),
                 model1_id = s, model2_id = R, message_id = mid,
                 mi_timestamp = snd now\<rparr>])\<rparr>"
    by simp_all
  have pos: "mid \<noteq> 0" by (simp add: mid next_rowid_def)
  have old_m: "msg_id m \<noteq> mid" if "m \<in> set ?ms" for m
    using next_rowid_gt [of "msg_id m" "map msg_id ?ms"] that mid by auto
  have old_i: "message_id mi \<noteq> mid" if "mi \<in> set ?rows" for mi
  proof -
    from that have "message_id mi \<in> set (map message_id ?rows)" by simp
    with lock have "message_id mi \<in> set (map msg_id ?ms)" by (simp add: lockstep_def)
    then obtain m where "m \<in> set ?ms" "msg_id m = message_id mi" by auto
    with old_m show ?thesis by metis
  qed
  have none_m: "filter (\<lambda>m. msg_id m = mid) ?ms = []"
    using old_m by (auto simp: filter_empty_conv)
  have none_i: "filter (\<lambda>mi. mid = message_id mi \<and> message_id mi = mid \<and> model2_id mi = R') ?rows = []"
    using old_i by (auto simp: filter_empty_conv)
  show ?thesis
    unfolding db' using pos none_m none_i by (simp add: receive_by_id_eq fetchone_def)
qed

text \<open>
  C7. In a reachable store state, the id that \<open>send_message\<close> returns for a message to the
  receiver R reads that message back through \<open>receive_message\<close> with R and the id, and reads
  nothing (\<open>None\<close>, no error) with any other receiver and the id.
\<close>

theorem receive_by_id_roundtrip:
  "send_message io now s R c t (run calls empty_db) = (Inr mid, db') \<Longrightarrow>
     receive_message ok_io R (Some mid) db' = Inr (Some c) \<and>
     (\<forall>R'. R' \<noteq> R \<longrightarrow> receive_message ok_io R' (Some mid) db' = Inr None)"
  using receive_fresh_id [OF lockstep_run [OF lockstep_empty]] by simp

lemma run_setup: "run [SetupDatabase ok_io] empty_db = fresh_db"
  by (simp add: run_def fresh_db_def)

theorem receive_by_id_roundtrip_witness:
  "send_message ok_io (5, 5) ''A'' ''B'' ''hi'' ''text'' (run [SetupDatabase ok_io] empty_db) =
     (Inr 1,
      \<lparr>messages = Some [\<lparr>msg_id = 1, model_id = ''A'', message_type = ''text'',
                          message_content = ''hi'', msg_timestamp = 5\<rparr>],
       model_interactions = Some [\<lparr>interaction_id = 1, model1_id = ''A'', model2_id = ''B'',
                          message_id = 1, mi_timestamp = 5\<rparr>]\<rparr>) \<and>
   receive_message ok_io ''B'' (Some 1)
      \<lparr>messages = Some [\<lparr>msg_id = 1, model_id = ''A'', message_type = ''text'',
                          message_content = ''hi'', msg_timestamp = 5\<rparr>],
       model_interactions = Some [\<lparr>interaction_id = 1, model1_id = ''A'', model2_id = ''B'',
                          message_id = 1, mi_timestamp = 5\<rparr>]\<rparr> = Inr (Some ''hi'') \<and>
   receive_message ok_io ''C'' (Some 1)
      \<lparr>messages = Some [\<lparr>msg_id = 1, model_id = ''A'', message_type = ''text'',
                          message_content = ''hi'', msg_timestamp = 5\<rparr>],
       model_interactions = Some [\<lparr>interaction_id = 1, model1_id = ''A'', model2_id = ''B'',
                          message_id = 1, mi_timestamp = 5\<rparr>]\<rparr> = Inr None"
proof -
  have sent: "send_message ok_io (5, 5) ''A'' ''B'' ''hi'' ''text'' (run [SetupDatabase ok_io] empty_db) =
     (Inr 1,
      \<lparr>messages = Some [\<lparr>msg_id = 1, model_id = ''A'', message_type = ''text'',
                          message_content = ''hi'', msg_timestamp = 5\<rparr>],
       model_interactions = Some [\<lparr>interaction_id = 1, model1_id = ''A'', model2_id = ''B'',
                          message_id = 1, mi_timestamp = 5\<rparr>]\<rparr>)"
    by (simp add: run_setup send_message_eq fresh_db_eq ok_io_apply next_rowid_Nil)
  from receive_by_id_roundtrip [OF sent] sent show ?thesis by simp
qed

section \<open>The history in order\<close>

lemma select_all_row: "(\<lambda>(m, mi). (msg_id m, model_id m, model2_id mi, message_content m,
    msg_timestamp m)) = history_row"
  by (rule ext) auto

lemma get_all_messages_eq:
  "get_all_messages ok_io db =
     (case joined (\<lambda>mi. True) db of
        Inl e \<Rightarrow> Inl e
      | Inr rows \<Rightarrow> Inr (map history_row (oldest_first rows)))"
  by (simp add: get_all_messages_def connect_def select_all_def ok_io_apply select_all_row
      split: sum.splits)

lemma oldest_first_sorted:
  assumes "sorted_wrt (<) (map (\<lambda>r. msg_id (fst r)) rows)"
  shows "sorted_wrt time_then_id (map history_row (oldest_first rows))"
proof -
  have "sorted_wrt (\<lambda>a b. msg_timestamp (fst a) < msg_timestamp (fst b) \<or>
            (msg_timestamp (fst a) = msg_timestamp (fst b) \<and> msg_id (fst a) < msg_id (fst b)))
          (sort_key (\<lambda>r. msg_timestamp (fst r)) rows)"
    using assms by (rule sort_key_time_then_id)
  moreover have "oldest_first rows = sort_key (\<lambda>r. msg_timestamp (fst r)) rows"
    by (simp add: oldest_first_def case_prod_unfold)
  ultimately have "sorted_wrt (\<lambda>a b. time_then_id (history_row a) (history_row b))
      (oldest_first rows)"
    by (auto elim!: sorted_wrt_mono_rel [rotated])
  then show ?thesis by (simp add: sorted_wrt_map)
qed

lemma get_all_messages_lockstep:
  assumes "lockstep db" "initialized db"
  shows "\<exists>rows. get_all_messages ok_io db = Inr rows \<and>
           sorted_wrt time_then_id rows \<and>
           mset rows = mset (map history_row (zip (message_rows db) (interaction_rows db))) \<and>
           length rows = length (message_rows db)"
proof -
  from assms(2) obtain ms rows where tabs: "messages db = Some ms" "model_interactions db = Some rows"
    by (auto simp: initialized_def)
  then have mr: "message_rows db = ms" "interaction_rows db = rows"
    by (simp_all add: message_rows_def interaction_rows_def)
  from assms(1) mr have eq: "map message_id rows = map msg_id ms"
    and srt: "sorted_wrt (<) (map msg_id ms)"
    by (simp_all add: lockstep_def)
  from eq have len: "length rows = length ms" by (metis length_map)
  have j: "joined (\<lambda>mi. True) db = Inr (zip ms rows)"
    using joined_lockstep [OF assms(1) tabs, of "\<lambda>mi. True"] by simp
  have "map (\<lambda>r. msg_id (fst r)) (zip ms rows) = map msg_id (map fst (zip ms rows))"
    by simp
  also have "\<dots> = map msg_id ms" using len by simp
  finally have ids: "sorted_wrt (<) (map (\<lambda>r. msg_id (fst r)) (zip ms rows))"
    using srt by simp
  have "get_all_messages ok_io db = Inr (map history_row (oldest_first (zip ms rows)))"
    by (simp add: get_all_messages_eq j)
  moreover have "sorted_wrt time_then_id (map history_row (oldest_first (zip ms rows)))"
    using ids by (rule oldest_first_sorted)
  moreover have "mset (map history_row (oldest_first (zip ms rows))) =
      mset (map history_row (zip ms rows))"
    by (simp add: oldest_first_def)
  moreover have "length (map history_row (oldest_first (zip ms rows))) = length ms"
    using len by (simp add: oldest_first_def)
  ultimately show ?thesis using mr by simp
qed

text \<open>
  C3. In every store state that a sequence of calls reaches and in which the tables exist,
  \<open>get_all_messages\<close> returns the whole history, one row for each message with its
  interaction, in an order in which the timestamps never decrease and rows of equal
  timestamp follow each other by strictly increasing message id, whatever the clock
  showed at each append.
\<close>

theorem get_all_messages_ordered:
  "initialized (run calls empty_db) \<Longrightarrow>
     \<exists>rows. get_all_messages ok_io (run calls empty_db) = Inr rows \<and>
       sorted_wrt time_then_id rows \<and>
       mset rows = mset (map history_row (zip (message_rows (run calls empty_db))
                                              (interaction_rows (run calls empty_db)))) \<and>
       length rows = length (message_rows (run calls empty_db))"
  by (rule get_all_messages_lockstep [OF lockstep_run [OF lockstep_empty]])

lemma run_three_sends:
  "run [SetupDatabase ok_io,
        SendMessage ok_io (7, 7) ''A'' ''B'' ''one'' ''text'',
        SendMessage ok_io (3, 3) ''B'' ''C'' ''two'' ''text'',
        SendMessage ok_io (7, 7) ''C'' ''A'' ''three'' ''text''] empty_db =
   \<lparr>messages = Some
      [\<lparr>msg_id = 1, model_id = ''A'', message_type = ''text'', message_content = ''one'',
        msg_timestamp = 7\<rparr>,
       \<lparr>msg_id = 2, model_id = ''B'', message_type = ''text'', message_content = ''two'',
        msg_timestamp = 3\<rparr>,
       \<lparr>msg_id = 3, model_id = ''C'', message_type = ''text'', message_content = ''three'',
        msg_timestamp = 7\<rparr>],
     model_interactions = Some
      [\<lparr>interaction_id = 1, model1_id = ''A'', model2_id = ''B'', message_id = 1,
        mi_timestamp = 7\<rparr>,
       \<lparr>interaction_id = 2, model1_id = ''B'', model2_id = ''C'', message_id = 2,
        mi_timestamp = 3\<rparr>,
       \<lparr>interaction_id = 3, model1_id = ''C'', model2_id = ''A'', message_id = 3,
        mi_timestamp = 7\<rparr>]\<rparr>"
  by (simp add: run_def setup_database_eq send_message_eq ok_io_apply empty_db_def
      message_rows_def interaction_rows_def next_rowid_def)

theorem get_all_messages_ordered_witness:
  "initialized (run [SetupDatabase ok_io,
        SendMessage ok_io (7, 7) ''A'' ''B'' ''one'' ''text'',
        SendMessage ok_io (3, 3) ''B'' ''C'' ''two'' ''text'',
        SendMessage ok_io (7, 7) ''C'' ''A'' ''three'' ''text''] empty_db) \<and>
   get_all_messages ok_io (run [SetupDatabase ok_io,
        SendMessage ok_io (7, 7) ''A'' ''B'' ''one'' ''text'',
        SendMessage ok_io (3, 3) ''B'' ''C'' ''two'' ''text'',
        SendMessage ok_io (7, 7) ''C'' ''A'' ''three'' ''text''] empty_db) =
     Inr [(2, ''B'', ''C'', ''two'', 3), (1, ''A'', ''B'', ''one'', 7),
          (3, ''C'', ''A'', ''three'', 7)] \<and>
   sorted_wrt time_then_id
     [(2, ''B'', ''C'', ''two'', 3), (1, ''A'', ''B'', ''one'', 7),
      (3, ''C'', ''A'', ''three'', 7)]"
proof -
  let ?db = "run [SetupDatabase ok_io,
        SendMessage ok_io (7, 7) ''A'' ''B'' ''one'' ''text'',
        SendMessage ok_io (3, 3) ''B'' ''C'' ''two'' ''text'',
        SendMessage ok_io (7, 7) ''C'' ''A'' ''three'' ''text''] empty_db"
  have init: "initialized ?db"
    unfolding run_three_sends by (simp add: initialized_def)
  have val: "get_all_messages ok_io ?db =
     Inr [(2, ''B'', ''C'', ''two'', 3), (1, ''A'', ''B'', ''one'', 7),
          (3, ''C'', ''A'', ''three'', 7)]"
    unfolding run_three_sends
    by (simp add: get_all_messages_eq joined_def oldest_first_def)
  from get_all_messages_ordered [OF init] val init show ?thesis by auto
qed

section \<open>Every turn starts with the first model\<close>

lemma seeded_db_latest_A:
  "receive_message ok_io ''A'' None
     (snd (execute_turn (quiet_world clk) (Some ''hello'') abc fresh_db)) =
   Inr (Some (relay_response ''C'' (relay_response ''B'' (initial_response ''hello''))))"
  by (simp add: seeded_turn receive_latest_eq joined_def newest_first_def relay_response_def
      initial_response_def)

lemma initialized_seeded_db:
  "initialized (snd (execute_turn (quiet_world clk) (Some ''hello'') abc fresh_db))"
  by (simp add: seeded_turn initialized_def)

lemma models_abc: "models abc = [''A'', ''B'', ''C'']"
  by (simp add: abc_def)

lemma second_turn_first_response:
  "\<exists>rest db2.
     execute_turn (quiet_world clk2) None abc
       (snd (execute_turn (quiet_world clk1) (Some ''hello'') abc fresh_db)) =
     (Inr (relay_response ''A'' (relay_response ''C'' (relay_response ''B''
             (initial_response ''hello''))) # rest), db2)"
proof -
  let ?db1 = "snd (execute_turn (quiet_world clk1) (Some ''hello'') abc fresh_db)"
  let ?r0 = "relay_response ''A'' (relay_response ''C'' (relay_response ''B''
             (initial_response ''hello'')))"
  from execute_turn_ok [OF initialized_seeded_db quiet_quiet_world, where init = None]
  obtain rs db2 where t: "execute_turn (quiet_world clk2) None abc ?db1 = (Inr rs, db2)"
    "length rs = length (models abc)"
    "models abc \<noteq> [] \<longrightarrow> compute_response ok_io None 0 (models abc ! 0) ?db1 = Inr (rs ! 0)"
    by blast
  have "compute_response ok_io None 0 ''A'' ?db1 = Inr ?r0"
    by (simp add: compute_response_def truthy_def seeded_db_latest_A relay_response_def)
  with t(3) have r0: "rs ! 0 = ?r0" by (simp add: models_abc)
  from t(2) have "rs \<noteq> []" by (auto simp: models_abc)
  then have "rs = rs ! 0 # tl rs" by (cases rs) simp_all
  with r0 have "rs = ?r0 # tl rs" by simp
  with t(1) show ?thesis by metis
qed

text \<open>
  C6. Whatever \<open>current_model_index\<close> holds, a turn on a non-empty roster starts with the
  first model: its first response is the one computed for roster position 0 on the store as
  the turn finds it. After the turn of A, B, C with the initial message \<open>hello\<close>, the latest
  message for A is the one C sent to A, and the first response of a following turn without
  initial message is the response of A to that message.
\<close>

theorem turn_restarts_at_first:
  "(initialized db \<and> quiet w (length (models self)) \<and> models self \<noteq> [] \<longrightarrow>
      (\<exists>rs db'. execute_turn w init (self\<lparr>current_model_index := k\<rparr>) db = (Inr rs, db') \<and>
                 compute_response ok_io init 0 (models self ! 0) db = Inr (rs ! 0))) \<and>
   receive_message ok_io ''A'' None
     (snd (execute_turn (quiet_world clk1) (Some ''hello'') abc fresh_db)) =
     Inr (Some ''RESPONSE from C: I received 'RESPONSE from B: I received 'INITIAL: hello' and my response is...' and my response is...'') \<and>
   (\<exists>rest db2.
      execute_turn (quiet_world clk2) None abc
        (snd (execute_turn (quiet_world clk1) (Some ''hello'') abc fresh_db)) =
      (Inr (''RESPONSE from A: I received 'RESPONSE from C: I received 'RESPONSE from B: I received 'INITIAL: hello' and my response is...' and my response is...' and my response is...'' # rest), db2))"
proof (intro conjI impI)
  assume a: "initialized db \<and> quiet w (length (models self)) \<and> models self \<noteq> []"
  then have "initialized db" "quiet w (length (models (self\<lparr>current_model_index := k\<rparr>)))"
    by simp_all
  from execute_turn_ok [OF this, of init] a
  show "\<exists>rs db'. execute_turn w init (self\<lparr>current_model_index := k\<rparr>) db = (Inr rs, db') \<and>
                 compute_response ok_io init 0 (models self ! 0) db = Inr (rs ! 0)"
    by auto
next
  show "receive_message ok_io ''A'' None
     (snd (execute_turn (quiet_world clk1) (Some ''hello'') abc fresh_db)) =
     Inr (Some ''RESPONSE from C: I received 'RESPONSE from B: I received 'INITIAL: hello' and my response is...' and my response is...'')"
    by (simp add: seeded_db_latest_A relay_response_def initial_response_def)
next
  from second_turn_first_response [of clk2 clk1]
  show "\<exists>rest db2.
      execute_turn (quiet_world clk2) None abc
        (snd (execute_turn (quiet_world clk1) (Some ''hello'') abc fresh_db)) =
      (Inr (''RESPONSE from A: I received 'RESPONSE from C: I received 'RESPONSE from B: I received 'INITIAL: hello' and my response is...' and my response is...' and my response is...'' # rest), db2)"
    by (simp add: relay_response_def initial_response_def)
qed

theorem turn_restarts_at_first_witness:
  "initialized fresh_db \<and> quiet (quiet_world (\<lambda>i. (i, i))) (length (models abc)) \<and>
   models abc \<noteq> [] \<and>
   (\<exists>rs db'. execute_turn (quiet_world (\<lambda>i. (i, i))) None (abc\<lparr>current_model_index := 2\<rparr>)
                fresh_db = (Inr rs, db') \<and>
              compute_response ok_io None 0 (models abc ! 0) fresh_db = Inr (rs ! 0))"
  using turn_restarts_at_first [of fresh_db "quiet_world (\<lambda>i. (i, i))" abc None 2]
    initialized_fresh_db quiet_quiet_world [of "\<lambda>i. (i, i)" "length (models abc)"]
  by (simp add: models_abc)

section \<open>The latest message for a model\<close>

text \<open>
  What the query for the latest message does give: a message of greatest timestamp among
  those sent to the model, and \<open>None\<close> without an error when there is none.
\<close>

lemma newest_first_hd:
  assumes "rows \<noteq> []"
  shows "hd (newest_first rows) \<in> set rows \<and>
     (\<forall>r \<in> set rows. msg_timestamp (fst r) \<le> msg_timestamp (fst (hd (newest_first rows))))"
proof -
  let ?k = "\<lambda>r :: message \<times> interaction. - int (msg_timestamp (fst r))"
  have nf: "newest_first rows = sort_key ?k rows"
    by (simp add: newest_first_def case_prod_unfold)
  have "set (sort_key ?k rows) = set rows" by simp
  with assms have "sort_key ?k rows \<noteq> []" by (metis set_empty)
  then obtain x xs where xs: "sort_key ?k rows = x # xs" by (cases "sort_key ?k rows") auto
  have "sorted (map ?k (sort_key ?k rows))" by (rule sorted_sort_key)
  with xs have le: "\<forall>y \<in> set xs. ?k x \<le> ?k y" by simp
  have mem: "set rows = insert x (set xs)"
    using xs \<open>set (sort_key ?k rows) = set rows\<close> by simp
  have "msg_timestamp (fst r) \<le> msg_timestamp (fst x)" if "r \<in> set rows" for r
    using that le mem by auto
  then show ?thesis using mem xs nf by simp
qed

lemma receive_latest_absent:
  "joined (\<lambda>mi. model2_id mi = who) db = Inr [] \<Longrightarrow> receive_message ok_io who None db = Inr None"
  by (simp add: receive_latest_eq newest_first_def)

lemma receive_latest_newest:
  assumes "joined (\<lambda>mi. model2_id mi = who) db = Inr rows" "rows \<noteq> []"
  shows "\<exists>r \<in> set rows. receive_message ok_io who None db = Inr (Some (message_content (fst r))) \<and>
           (\<forall>r' \<in> set rows. msg_timestamp (fst r') \<le> msg_timestamp (fst r))"
proof -
  from newest_first_hd [OF assms(2)] have h: "hd (newest_first rows) \<in> set rows"
    "\<forall>r \<in> set rows. msg_timestamp (fst r) \<le> msg_timestamp (fst (hd (newest_first rows)))"
    by simp_all
  have "set (newest_first rows) = set rows" by (simp add: newest_first_def)
  with assms(2) have "newest_first rows \<noteq> []" by (metis set_empty)
  then have "receive_message ok_io who None db =
      Inr (Some (message_content (fst (hd (newest_first rows)))))"
    using assms(1) by (cases "newest_first rows") (simp_all add: receive_latest_eq)
  with h show ?thesis by blast
qed

lemma run_same_second:
  "run [SetupDatabase ok_io,
        SendMessage ok_io (5, 5) ''A'' ''B'' ''first'' ''text'',
        SendMessage ok_io (5, 5) ''C'' ''B'' ''second'' ''text''] empty_db =
   \<lparr>messages = Some
      [\<lparr>msg_id = 1, model_id = ''A'', message_type = ''text'', message_content = ''first'',
        msg_timestamp = 5\<rparr>,
       \<lparr>msg_id = 2, model_id = ''C'', message_type = ''text'', message_content = ''second'',
        msg_timestamp = 5\<rparr>],
     model_interactions = Some
      [\<lparr>interaction_id = 1, model1_id = ''A'', model2_id = ''B'', message_id = 1,
        mi_timestamp = 5\<rparr>,
       \<lparr>interaction_id = 2, model1_id = ''C'', model2_id = ''B'', message_id = 2,
        mi_timestamp = 5\<rparr>]\<rparr>"
  by (simp add: run_def setup_database_eq send_message_eq ok_io_apply empty_db_def
      message_rows_def interaction_rows_def next_rowid_def)

text \<open>
  C2. The specification has \<open>receive_message\<close> without a message id break a tie of
  timestamps by the greatest message id. \<open>ORDER BY m.timestamp DESC LIMIT 1\<close> names no second key, and among
  rows of equal timestamp SQLite yields the one it scanned first: after two messages sent
  to B within the same second, the model B receives the first of them, not the latest.
\<close>

theorem receive_latest_tie:
  "receive_message ok_io ''B'' None
     (run [SetupDatabase ok_io,
           SendMessage ok_io (5, 5) ''A'' ''B'' ''first'' ''text'',
           SendMessage ok_io (5, 5) ''C'' ''B'' ''second'' ''text''] empty_db) =
   Inr (Some ''first'')"
  unfolding run_same_second
  by (simp add: receive_latest_eq joined_def newest_first_def)

end
